theory Spec2Isabelle
  imports Main
begin

section \<open>The kernel inventory of clr-boot-manager (src/bootman/kernel.c)\<close>

text \<open>
  A shallow embedding of \<^verbatim>\<open>src/bootman/kernel.c\<close>. C strings are modelled by their
  content, a \<^typ>\<open>string\<close> without the terminating NUL; a pointer that the code tests
  against \<^verbatim>\<open>NULL\<close> is an \<^typ>\<open>'a option\<close>; the C \<^verbatim>\<open>int\<close> fields are
  \<^typ>\<open>int\<close>, and every conversion into an \<^verbatim>\<open>int\<close> writes the reduction to 32 bits
  out. Memory allocation is taken to succeed (the code aborts or returns \<^verbatim>\<open>NULL\<close>
  otherwise).
\<close>

subsection \<open>Data model\<close>

text \<open>
  \<^verbatim>\<open>struct SystemKernel\<close> (declared in bootman.h): two character buffers and the
  release number. The buffers are kept as byte lists, because
  \<^verbatim>\<open>cbm_parse_system_kernel\<close> fills them with \<^verbatim>\<open>strncpy\<close> and relies on the
  zero bytes that \<^verbatim>\<open>memset\<close> left behind them.
\<close>

record SystemKernel =
  version :: string
  ktype :: string
  release :: int

text \<open>
  \<^verbatim>\<open>struct Kernel\<close>: the fields that \<^verbatim>\<open>boot_manager_inspect_kernel\<close> fills and
  \<^verbatim>\<open>free_kernel\<close> releases. The three fields that a returned record can hold as
  \<^verbatim>\<open>NULL\<close> are options.
\<close>

record Kernel =
  path :: string
  bpath :: string
  version :: string
  release :: int
  ktype :: string
  module_dir :: string
  cmdline :: "string option"
  cmdline_file :: string
  kconfig_file :: "string option"
  kboot_file :: "string option"
  boots :: bool

text \<open>
  \<^verbatim>\<open>struct BootManager\<close>, restricted to the fields kernel.c reads.
  \<^verbatim>\<open>kernel_dir\<close> is tested against \<^verbatim>\<open>NULL\<close> by the scanner, so it is an option.
\<close>

record BootManager =
  prefix :: string
  kernel_dir :: "string option"
  sys_kernel :: SystemKernel
  have_sys_kernel :: bool
  image_mode :: bool


text \<open>
  What kernel.c takes from headers that are not among the sources: the macros
  \<^verbatim>\<open>KERNEL_NAMESPACE\<close> and \<^verbatim>\<open>KERNEL_MODULES_DIRECTORY\<close> of config.h and the
  helper \<^verbatim>\<open>cbm_get_file_parent\<close> of files.h. They are parameters of the model;
  \<^verbatim>\<open>cbm_get_file_parent\<close> gives the text that \<^verbatim>\<open>%s\<close> prints for its result.
  \<^verbatim>\<open>KERNEL_NAMESPACE\<close> is pasted into a \<^verbatim>\<open>sscanf\<close> format; it is read as ordinary
  characters (no white space, no \<^verbatim>\<open>%\<close>), as in the code's example
  \<^verbatim>\<open>org.clearlinux.kvm.4.2.1-121\<close>. The macro \<^verbatim>\<open>CBM_KELEM_LEN\<close> of bootman.h is an
  argument of the one function that uses it, \<^verbatim>\<open>cbm_parse_system_kernel\<close>.
\<close>

record cbm_externals =
  KERNEL_NAMESPACE :: string
  KERNEL_MODULES_DIRECTORY :: string
  cbm_get_file_parent :: "string \<Rightarrow> string"

text \<open>
  The file system as kernel.c reads it, and the accesses it makes. A call sees one
  snapshot: \<^verbatim>\<open>fs_exists\<close> answers \<^verbatim>\<open>nc_file_exists\<close>, \<^verbatim>\<open>fs_content\<close> is the byte
  content \<^verbatim>\<open>fopen(..., "r")\<close> gives access to (\<open>None\<close> when the file cannot be
  opened), \<^verbatim>\<open>fs_readlink\<close> the text \<^verbatim>\<open>readlink\<close> leaves in the buffer (shorter
  than \<^verbatim>\<open>PATH_MAX\<close>, so that the zero-filled buffer holds it as a C string),
  \<^verbatim>\<open>fs_readdir\<close> the entry names \<^verbatim>\<open>opendir\<close> and \<^verbatim>\<open>readdir\<close> deliver, and
  \<^verbatim>\<open>fs_lstat\<close> the result of \<^verbatim>\<open>lstat\<close>. Every function that touches the file
  system threads the list of accesses made so far.
\<close>

record file_stat =
  st_is_reg :: bool
  st_size :: nat

record filesystem =
  fs_exists :: "string \<Rightarrow> bool"
  fs_content :: "string \<Rightarrow> string option"
  fs_readlink :: "string \<Rightarrow> string option"
  fs_readdir :: "string \<Rightarrow> string list option"
  fs_lstat :: "string \<Rightarrow> file_stat option"

datatype fs_access =
  Access_exists string
  | Access_fopen string
  | Access_readlink string
  | Access_opendir string
  | Access_lstat string

subsection \<open>C library functions\<close>

definition isspace :: "char \<Rightarrow> bool" where
  "isspace c = (c \<in> set [CHR '' '', CHR 0x09, CHR 0x0A, CHR 0x0B, CHR 0x0C, CHR 0x0D])"

definition isdigit :: "char \<Rightarrow> bool" where
  "isdigit c = (c \<in> set ''0123456789'')"

definition digit_val :: "char \<Rightarrow> int" where
  "digit_val c = int (of_char c) - 48"

definition dec_value :: "string \<Rightarrow> int" where
  "dec_value ds = foldl (\<lambda>a c. 10 * a + digit_val c) 0 ds"

text \<open>
  \<^verbatim>\<open>strtol\<close> returns a \<^verbatim>\<open>long\<close> (64 bits on the LP64 platforms the program is
  built for) and clamps a value out of range to \<^verbatim>\<open>LONG_MIN\<close> or \<^verbatim>\<open>LONG_MAX\<close>.
  Storing a \<^verbatim>\<open>long\<close> into an \<^verbatim>\<open>int\<close> keeps its low 32 bits, read as two's
  complement.
\<close>

definition strtol_clamp :: "int \<Rightarrow> int" where
  "strtol_clamp v = max (- (2 ^ 63)) (min (2 ^ 63 - 1) v)"

definition int_of_long :: "int \<Rightarrow> int" where
  "int_of_long v = signed_take_bit 31 v"

text \<open>
  The subject sequence of a base-10 integer conversion: optional white space, an
  optional sign, at least one digit. The result is the \<^verbatim>\<open>long\<close> value and the text
  that follows the digits; \<open>None\<close> when there is no digit to convert. Both
  \<^verbatim>\<open>strtol(..., 10)\<close> and glibc's \<^verbatim>\<open>%d\<close> of \<^verbatim>\<open>sscanf\<close> convert this way.
\<close>

definition scan_long :: "string \<Rightarrow> (int \<times> string) option" where
  "scan_long s =
     (let s1 = dropWhile isspace s;
          neg = (s1 \<noteq> [] \<and> hd s1 = CHR ''-'');
          s2 = (if s1 \<noteq> [] \<and> (hd s1 = CHR ''-'' \<or> hd s1 = CHR ''+'') then tl s1 else s1);
          ds = takeWhile isdigit s2
      in if ds = [] then None
         else Some (strtol_clamp (if neg then - dec_value ds else dec_value ds),
                    drop (length ds) s2))"

text \<open>\<^verbatim>\<open>strtol(nptr, &junk, 10)\<close>: without a conversion the value is 0 and \<^verbatim>\<open>junk\<close> is
  \<^verbatim>\<open>nptr\<close>.\<close>

definition strtol :: "string \<Rightarrow> int \<times> string" where
  "strtol nptr = (case scan_long nptr of None \<Rightarrow> (0, nptr) | Some r \<Rightarrow> r)"

text \<open>The C string held by a buffer: its bytes up to the first NUL.\<close>

definition c_str :: "string \<Rightarrow> string" where
  "c_str buf = takeWhile (\<lambda>c. c \<noteq> CHR 0x00) buf"

text \<open>\<^verbatim>\<open>strchr\<close>, as the offset of the first occurrence.\<close>

definition strchr :: "string \<Rightarrow> char \<Rightarrow> nat option" where
  "strchr s ch = (if ch \<in> set s then Some (length (takeWhile (\<lambda>c. c \<noteq> ch) s)) else None)"

text \<open>\<^verbatim>\<open>strncpy(dst, src, n)\<close>: exactly \<open>n\<close> bytes of \<open>dst\<close> are written, the
  bytes of \<open>src\<close> and then NULs when \<open>src\<close> is shorter; no NUL is added otherwise.\<close>

definition strncpy :: "string \<Rightarrow> string \<Rightarrow> nat \<Rightarrow> string" where
  "strncpy dst src n = take n (src @ replicate n (CHR 0x00)) @ drop n dst"

text \<open>\<^verbatim>\<open>printf\<close>'s \<^verbatim>\<open>%d\<close>.\<close>

fun show_nat :: "nat \<Rightarrow> string" where
  "show_nat n =
     (if n < 10 then [char_of (48 + n)] else show_nat (n div 10) @ [char_of (48 + n mod 10)])"

declare show_nat.simps [simp del]

definition printf_d :: "int \<Rightarrow> string" where
  "printf_d i = (if i < 0 then CHR ''-'' # show_nat (nat (- i)) else show_nat (nat i))"

text \<open>GNU \<^verbatim>\<open>basename\<close> (kernel.c defines \<^verbatim>\<open>_GNU_SOURCE\<close>): what follows the last
  slash. POSIX \<^verbatim>\<open>basename\<close> gives the same on every path that does not end in a
  slash, as the paths the scanner builds.\<close>

definition basename :: "string \<Rightarrow> string" where
  "basename p = rev (takeWhile (\<lambda>c. c \<noteq> CHR ''/'') (rev p))"

text \<open>
  \<^verbatim>\<open>getline\<close> on what is left of a stream: \<open>None\<close> at the end of the file (the
  call returns -1), else the next line with its newline, if it has one, and the rest of
  the stream. The length of the line is the value \<^verbatim>\<open>getline\<close> returns.
\<close>

definition getline :: "string \<Rightarrow> (string \<times> string) option" where
  "getline stream =
     (if stream = [] then None
      else let l = takeWhile (\<lambda>c. c \<noteq> CHR 0x0A) stream;
               rest = drop (length l) stream
           in if rest = [] then Some (l, []) else Some (l @ [CHR 0x0A], tl rest))"

text \<open>The file system calls, each recording its access.\<close>

definition nc_file_exists :: "filesystem \<Rightarrow> string \<Rightarrow> fs_access list \<Rightarrow> bool \<times> fs_access list" where
  "nc_file_exists fs p tr = (fs_exists fs p, tr @ [Access_exists p])"

definition fopen :: "filesystem \<Rightarrow> string \<Rightarrow> fs_access list \<Rightarrow> string option \<times> fs_access list" where
  "fopen fs p tr = (fs_content fs p, tr @ [Access_fopen p])"

definition readlink :: "filesystem \<Rightarrow> string \<Rightarrow> fs_access list \<Rightarrow> string option \<times> fs_access list" where
  "readlink fs p tr = (fs_readlink fs p, tr @ [Access_readlink p])"

definition opendir :: "filesystem \<Rightarrow> string \<Rightarrow> fs_access list \<Rightarrow> string list option \<times> fs_access list" where
  "opendir fs p tr = (fs_readdir fs p, tr @ [Access_opendir p])"

definition lstat :: "filesystem \<Rightarrow> string \<Rightarrow> fs_access list \<Rightarrow> file_stat option \<times> fs_access list" where
  "lstat fs p tr = (fs_lstat fs p, tr @ [Access_lstat p])"

subsection \<open>The kernel filename parser\<close>

text \<open>
  The directives of the format \<^verbatim>\<open>KERNEL_NAMESPACE ".%15[^.].%15[^-]-%d"\<close>.
  A literal must be the next characters of the input. \<^verbatim>\<open>%15[^x]\<close> takes the longest
  run of characters other than \<open>x\<close>, at most 15 of them, and does not skip white
  space.
\<close>

definition scan_literal :: "string \<Rightarrow> string \<Rightarrow> string option" where
  "scan_literal lit s = (if take (length lit) s = lit then Some (drop (length lit) s) else None)"

definition scan_set :: "nat \<Rightarrow> (char \<Rightarrow> bool) \<Rightarrow> string \<Rightarrow> string \<times> string" where
  "scan_set width accept s =
     (let tok = take width (takeWhile accept s) in (tok, drop (length tok) s))"

text \<open>
  \<^verbatim>\<open>sscanf(bcp, KERNEL_NAMESPACE ".%15[^.].%15[^-]-%d", type, version, &release)\<close>.
  \<open>Some (type, version, release)\<close> is the return value 3 with the three values
  stored; \<open>None\<close> is any other return value (the caller returns \<^verbatim>\<open>NULL\<close> on
  \<^verbatim>\<open>r != 3\<close>). The tokens are what the call stores. The buffers are
  \<^verbatim>\<open>char type[15]\<close> and \<^verbatim>\<open>char version[15]\<close>: a token of the full width of 15
  characters is stored with its NUL one byte past its buffer; the call goes on and
  returns as for any other token, and so does the model.
\<close>

definition sscanf_kernel_name :: "string \<Rightarrow> string \<Rightarrow> (string \<times> string \<times> int) option" where
  "sscanf_kernel_name namespace bcp =
     (case scan_literal (namespace @ ''.'') bcp of
        None \<Rightarrow> None
      | Some s1 \<Rightarrow>
          let (type, s2) = scan_set 15 (\<lambda>c. c \<noteq> CHR ''.'') s1 in
          if type = [] then None
          else
            (case scan_literal ''.'' s2 of
               None \<Rightarrow> None
             | Some s3 \<Rightarrow>
                 let (version, s4) = scan_set 15 (\<lambda>c. c \<noteq> CHR ''-'') s3 in
                 if version = [] then None
                 else
                   (case scan_literal ''-'' s4 of
                      None \<Rightarrow> None
                    | Some s5 \<Rightarrow>
                        (case scan_long s5 of
                           None \<Rightarrow> None
                         | Some (v, junk) \<Rightarrow> Some (type, version, int_of_long v)))))"

subsection \<open>The kernel record builder\<close>

text \<open>\<^verbatim>\<open>boot_manager_get_kboot_file\<close>: the path of the boot marker.\<close>

definition boot_manager_get_kboot_file :: "BootManager \<Rightarrow> Kernel \<Rightarrow> string option" where
  "boot_manager_get_kboot_file self k =
     Some (prefix self @ ''/var/lib/kernel/k_booted_'' @ version k @ ''-'' @
           printf_d (release k) @ ''.'' @ ktype k)"

text \<open>
  The \<^verbatim>\<open>getline\<close> loop of \<^verbatim>\<open>boot_manager_inspect_kernel\<close>, on what is left of
  the stream and the current \<^verbatim>\<open>kern->cmdline\<close>. A line of more than one byte that
  ends in a newline has the newline overwritten by NUL; the first line becomes the
  cmdline, every later one is appended by \<^verbatim>\<open>asprintf("%s %s", ...)\<close>, which reads both
  as C strings.
\<close>

function read_cmdline :: "string \<Rightarrow> string option \<Rightarrow> string option" where
  "read_cmdline stream cmdl =
     (case getline stream of
        None \<Rightarrow> cmdl
      | Some (buf, rest) \<Rightarrow>
          let r = length buf;
              buf' = (if 1 < r \<and> buf ! (r - 1) = CHR 0x0A then buf[r - 1 := CHR 0x00] else buf)
          in read_cmdline rest
               (case cmdl of
                  None \<Rightarrow> Some (c_str buf')
                | Some acc \<Rightarrow> Some (acc @ '' '' @ c_str buf')))"
  by pat_completeness auto
termination
  by (relation "measure (\<lambda>(stream, cmdl). length stream)")
     (auto simp: getline_def Let_def split: if_splits)

declare read_cmdline.simps [simp del]

text \<open>
  \<^verbatim>\<open>boot_manager_inspect_kernel\<close>. The result \<open>None\<close> is the return value
  \<^verbatim>\<open>NULL\<close>, \<open>Some k\<close> the record returned.
\<close>

definition boot_manager_inspect_kernel ::
    "cbm_externals \<Rightarrow> filesystem \<Rightarrow> BootManager option \<Rightarrow> string option \<Rightarrow> fs_access list
      \<Rightarrow> Kernel option \<times> fs_access list" where
  "boot_manager_inspect_kernel ext fs self path_arg tr =
     (case self of
        None \<Rightarrow> (None, tr)
      | Some s \<Rightarrow>
     (case path_arg of
        None \<Rightarrow> (None, tr)
      | Some p \<Rightarrow>
     (let bcp = basename p in
      case sscanf_kernel_name (KERNEL_NAMESPACE ext) bcp of
        None \<Rightarrow> (None, tr)
      | Some (type, vers, rel) \<Rightarrow>
     (let parent = cbm_get_file_parent ext p;
          cmdline_path = parent @ ''/cmdline-'' @ vers @ ''-'' @ printf_d rel @ ''.'' @ type;
          kconfig_path = parent @ ''/config-'' @ vers @ ''-'' @ printf_d rel @ ''.'' @ type;
          (has_cmdline, tr1) = nc_file_exists fs cmdline_path tr
      in if \<not> has_cmdline then (None, tr1)
         else
     (let module_path = prefix s @ ''/'' @ KERNEL_MODULES_DIRECTORY ext @ ''/'' @ vers @ ''-'' @
                          printf_d rel @ ''.'' @ type;
          (has_modules, tr2) = nc_file_exists fs module_path tr1;
          (modules, tr3) =
             (if has_modules then (Some module_path, tr2)
              else let legacy_path = prefix s @ ''/'' @ KERNEL_MODULES_DIRECTORY ext @ ''/'' @
                                       vers @ ''-'' @ printf_d rel;
                       (has_legacy, tr') = nc_file_exists fs legacy_path tr2
                   in (if has_legacy then Some legacy_path else None, tr'))
      in case modules of
           None \<Rightarrow> (None, tr3)
         | Some mdir \<Rightarrow>
     (let (has_kconfig, tr4) = nc_file_exists fs kconfig_path tr3;
          kern = \<lparr>path = p, bpath = bcp, version = vers, release = rel, ktype = type,
                  module_dir = mdir, cmdline = None, cmdline_file = [],
                  kconfig_file = (if has_kconfig then Some kconfig_path else None),
                  kboot_file = None, boots = False\<rparr>;
          (f, tr5) = fopen fs cmdline_path tr4
      in case f of
           None \<Rightarrow> (None, tr5)
         | Some stream \<Rightarrow>
     (let kern = kern\<lparr>cmdline := read_cmdline stream (cmdline kern)\<rparr>;
          kern = kern\<lparr>cmdline_file := cmdline_path\<rparr>;
          kern = kern\<lparr>kboot_file := boot_manager_get_kboot_file s kern\<rparr>
      in case kboot_file kern of
           None \<Rightarrow> (Some kern, tr5)
         | Some kboot \<Rightarrow>
             (let (booted, tr6) = nc_file_exists fs kboot tr5
              in (Some (if booted then kern\<lparr>boots := True\<rparr> else kern), tr6)))))))))"

subsection \<open>The inventory scanner\<close>

text \<open>
  The \<^verbatim>\<open>readdir\<close> loop of \<^verbatim>\<open>boot_manager_get_kernels\<close> over the entry names that
  are left, with the array built so far.
\<close>

fun scan_entries ::
    "cbm_externals \<Rightarrow> filesystem \<Rightarrow> BootManager \<Rightarrow> string \<Rightarrow> string list \<Rightarrow> Kernel list
      \<Rightarrow> fs_access list \<Rightarrow> Kernel list \<times> fs_access list" where
  "scan_entries ext fs s dir [] ret tr = (ret, tr)"
| "scan_entries ext fs s dir (d_name # ents) ret tr =
     (let p = dir @ ''/'' @ d_name;
          (st, tr1) = lstat fs p tr
      in case st of
           None \<Rightarrow> scan_entries ext fs s dir ents ret tr1
         | Some st \<Rightarrow>
             if \<not> st_is_reg st then scan_entries ext fs s dir ents ret tr1
             else if st_size st = 0 then scan_entries ext fs s dir ents ret tr1
             else
               (case boot_manager_inspect_kernel ext fs (Some s) (Some p) tr1 of
                  (None, tr2) \<Rightarrow> scan_entries ext fs s dir ents ret tr2
                | (Some kern, tr2) \<Rightarrow> scan_entries ext fs s dir ents (ret @ [kern]) tr2))"

definition boot_manager_get_kernels ::
    "cbm_externals \<Rightarrow> filesystem \<Rightarrow> BootManager option \<Rightarrow> fs_access list
      \<Rightarrow> Kernel list option \<times> fs_access list" where
  "boot_manager_get_kernels ext fs self tr =
     (case self of
        None \<Rightarrow> (None, tr)
      | Some s \<Rightarrow>
          (case kernel_dir s of
             None \<Rightarrow> (None, tr)
           | Some dir \<Rightarrow>
               (let (d, tr1) = opendir fs dir tr
                in case d of
                     None \<Rightarrow> (None, tr1)
                   | Some ents \<Rightarrow>
                       (case scan_entries ext fs s dir ents [] tr1 of
                          (ret, tr2) \<Rightarrow> (Some ret, tr2)))))"

subsection \<open>The default-for-type query\<close>

text \<open>
  \<^verbatim>\<open>boot_manager_get_default_for_type\<close>. glibc prints a \<^verbatim>\<open>NULL\<close> string argument
  of \<^verbatim>\<open>%s\<close> as \<^verbatim>\<open>(null)\<close>; the loop returns the first record whose \<^verbatim>\<open>bpath\<close> is
  the link text.
\<close>

definition boot_manager_get_default_for_type ::
    "filesystem \<Rightarrow> BootManager option \<Rightarrow> Kernel list option \<Rightarrow> string option \<Rightarrow> fs_access list
      \<Rightarrow> Kernel option \<times> fs_access list" where
  "boot_manager_get_default_for_type fs self kernels type tr =
     (case self of
        None \<Rightarrow> (None, tr)
      | Some s \<Rightarrow>
     (case kernels of
        None \<Rightarrow> (None, tr)
      | Some ks \<Rightarrow>
     (case type of
        None \<Rightarrow> (None, tr)
      | Some t \<Rightarrow>
          (let default_file =
                 (case kernel_dir s of None \<Rightarrow> ''(null)'' | Some d \<Rightarrow> d) @ ''/default-'' @ t;
               (linkbuf, tr1) = readlink fs default_file tr
           in case linkbuf of
                None \<Rightarrow> (None, tr1)
              | Some target \<Rightarrow> (find (\<lambda>k. bpath k = target) ks, tr1)))))"

subsection \<open>The system kernel identity parser\<close>

text \<open>
  \<^verbatim>\<open>memset(kernel, 0, sizeof(struct SystemKernel))\<close>: every byte of the structure is
  zero afterwards, whatever it held. The two buffers have \<^verbatim>\<open>CBM_KELEM_LEN + 1\<close> bytes,
  like the local \<^verbatim>\<open>krelease\<close>.
\<close>

definition memset_SystemKernel :: "nat \<Rightarrow> SystemKernel \<Rightarrow> SystemKernel" where
  "memset_SystemKernel kelem_len k =
     k\<lparr>SystemKernel.version := replicate (kelem_len + 1) (CHR 0x00),
       SystemKernel.ktype := replicate (kelem_len + 1) (CHR 0x00),
       SystemKernel.release := 0\<rparr>"

text \<open>
  \<^verbatim>\<open>cbm_parse_system_kernel\<close>, with the macro \<^verbatim>\<open>CBM_KELEM_LEN\<close> as its first
  argument. The result is the return value and the structure \<^verbatim>\<open>kernel\<close> points to
  afterwards. \<open>c\<close> and \<open>c2\<close> are the offsets in \<open>inp\<close> of the pointers of the
  same names. The test \<^verbatim>\<open>c + 1 == '\0'\<close> compares a pointer into the string with the
  null pointer and never holds.
\<close>

definition cbm_parse_system_kernel ::
    "nat \<Rightarrow> string option \<Rightarrow> SystemKernel option \<Rightarrow> bool \<times> SystemKernel option" where
  "cbm_parse_system_kernel kelem_len inp_arg kernel_arg =
     (case kernel_arg of
        None \<Rightarrow> (False, None)
      | Some k0 \<Rightarrow>
     (case inp_arg of
        None \<Rightarrow> (False, Some k0)
      | Some inp \<Rightarrow>
     (let kernel = memset_SystemKernel kelem_len k0;
          krelease = replicate (kelem_len + 1) (CHR 0x00)
      in case strchr inp (CHR ''-'') of
           None \<Rightarrow> (False, Some kernel)
         | Some c \<Rightarrow>
             if kelem_len \<le> c then (False, Some kernel)
             else
     (case strchr (drop (c + 1) inp) (CHR ''.'') of
        None \<Rightarrow> (False, Some kernel)
      | Some d \<Rightarrow>
     (let c2 = c + 1 + d in
      if kelem_len \<le> c2 - c then (False, Some kernel)
      else
     (let len = c in
      if len < 1 then (False, Some kernel)
      else
     (let kernel = kernel\<lparr>SystemKernel.version :=
                     (strncpy (SystemKernel.version kernel) inp len)[len + 1 := CHR 0x00]\<rparr>;
          len = c2 - c - 1
      in if len < 1 then (False, Some kernel)
         else
     (let krelease = (strncpy krelease (drop (c + 1) inp) len)[len + 1 := CHR 0x00];
          (rel, junk) = strtol (c_str krelease)
      in if junk \<noteq> [] then (False, Some kernel)
         else
     (let kernel = kernel\<lparr>SystemKernel.release := int_of_long rel\<rparr>;
          len = length (drop (c2 + 1) inp)
      in if len < 1 \<or> kelem_len \<le> len then (False, Some kernel)
         else
           (True, Some (kernel\<lparr>SystemKernel.ktype :=
              (strncpy (SystemKernel.ktype kernel) (drop (c2 + 1) inp) len)
                [len + 1 := CHR 0x00]\<rparr>)))))))))))"

subsection \<open>The running-kernel query\<close>

text \<open>
  Modelled from the spec: \<^verbatim>\<open>boot_manager_is_image_mode\<close> is defined in bootman.c, which
  is not among the sources; the spec calls image mode a mode flag supplied by the
  surrounding system, the \<^verbatim>\<open>image_mode\<close> field of the manager.
\<close>

definition boot_manager_is_image_mode :: "BootManager \<Rightarrow> bool" where
  "boot_manager_is_image_mode self = image_mode self"

definition boot_manager_get_system_kernel :: "BootManager option \<Rightarrow> SystemKernel option" where
  "boot_manager_get_system_kernel self =
     (case self of
        None \<Rightarrow> None
      | Some s \<Rightarrow>
          if \<not> have_sys_kernel s then None
          else if boot_manager_is_image_mode s then None
          else Some (sys_kernel s))"

definition boot_manager_get_running_kernel ::
    "BootManager option \<Rightarrow> Kernel list option \<Rightarrow> Kernel option" where
  "boot_manager_get_running_kernel self kernels =
     (case self of
        None \<Rightarrow> None
      | Some s \<Rightarrow>
     (case kernels of
        None \<Rightarrow> None
      | Some ks \<Rightarrow>
     (case boot_manager_get_system_kernel self of
        None \<Rightarrow> None
      | Some k \<Rightarrow>
          find (\<lambda>cur. ktype cur = c_str (SystemKernel.ktype k) \<and>
                      version cur = c_str (SystemKernel.version k) \<and>
                      release cur = SystemKernel.release k) ks)))"

subsection \<open>The last-booted query\<close>

text \<open>
  One iteration of the loop of \<^verbatim>\<open>boot_manager_get_last_booted\<close> on the pair
  \<^verbatim>\<open>(high_rel, candidate)\<close>: a record whose release is below \<^verbatim>\<open>high_rel\<close> is
  skipped, then a record that does not boot is skipped, and any other record becomes
  the candidate.
\<close>

definition last_booted_step :: "int \<times> Kernel option \<Rightarrow> Kernel \<Rightarrow> int \<times> Kernel option" where
  "last_booted_step st k =
     (case st of (high_rel, candidate) \<Rightarrow>
        if release k < high_rel then (high_rel, candidate)
        else if \<not> boots k then (high_rel, candidate)
        else (release k, Some k))"

definition boot_manager_get_last_booted ::
    "BootManager option \<Rightarrow> Kernel list option \<Rightarrow> Kernel option" where
  "boot_manager_get_last_booted self kernels =
     (case self of
        None \<Rightarrow> None
      | Some s \<Rightarrow>
          (case kernels of
             None \<Rightarrow> None
           | Some ks \<Rightarrow> snd (foldl last_booted_step (- 1, None) ks)))"

subsection \<open>The on-disk layout and the cmdline text, in the spec's words\<close>

text \<open>
  The paths of the spec's external interfaces: the cmdline fragment
  \<^verbatim>\<open><kernel-dir>/cmdline-<version>-<release>.<type>\<close>, the module directory of the
  current layout \<^verbatim>\<open><root>/<modules-subpath>/<version>-<release>.<type>\<close> and that of
  the legacy layout \<^verbatim>\<open><root>/<modules-subpath>/<version>-<release>\<close>.
\<close>

definition spec_cmdline_path :: "string \<Rightarrow> string \<Rightarrow> int \<Rightarrow> string \<Rightarrow> string" where
  "spec_cmdline_path parent v r t = parent @ ''/cmdline-'' @ v @ ''-'' @ printf_d r @ ''.'' @ t"

definition spec_module_dir :: "string \<Rightarrow> string \<Rightarrow> string \<Rightarrow> int \<Rightarrow> string \<Rightarrow> string" where
  "spec_module_dir root subpath v r t =
     root @ ''/'' @ subpath @ ''/'' @ v @ ''-'' @ printf_d r @ ''.'' @ t"

definition spec_legacy_module_dir :: "string \<Rightarrow> string \<Rightarrow> string \<Rightarrow> int \<Rightarrow> string" where
  "spec_legacy_module_dir root subpath v r =
     root @ ''/'' @ subpath @ ''/'' @ v @ ''-'' @ printf_d r"


text \<open>The lines of a file: each ends with its newline, but for a last line that has
  none.\<close>

fun lines_of :: "string \<Rightarrow> string list" where
  "lines_of [] = []"
| "lines_of (c # cs) =
     (if c = CHR 0x0A then [c] # lines_of cs
      else (case lines_of cs of [] \<Rightarrow> [[c]] | l # ls \<Rightarrow> (c # l) # ls))"

text \<open>Lines joined with a single space between consecutive lines.\<close>

fun join_space :: "string list \<Rightarrow> string" where
  "join_space [] = []"
| "join_space [l] = l"
| "join_space (l # m # ls) = l @ '' '' @ join_space (m # ls)"

text \<open>A line with a single trailing newline stripped, as the spec words it.\<close>

definition strip_newline :: "string \<Rightarrow> string" where
  "strip_newline l = (if l \<noteq> [] \<and> last l = CHR 0x0A then butlast l else l)"

definition spec_cmdline :: "string \<Rightarrow> string" where
  "spec_cmdline content = join_space (map strip_newline (lines_of content))"

text \<open>
  A line as the code takes it: the trailing newline is stripped unless the line is the
  newline alone, and the line is read as a C string, so it ends at its first NUL byte if
  it has one.
\<close>

definition cmdline_line :: "string \<Rightarrow> string" where
  "cmdline_line l = c_str (if 1 < length l \<and> last l = CHR 0x0A then butlast l else l)"

text \<open>Appending a line to the text joined so far (\<open>None\<close>: no line yet).\<close>

definition add_line :: "string option \<Rightarrow> string \<Rightarrow> string option" where
  "add_line acc l = (case acc of None \<Rightarrow> Some l | Some a \<Rightarrow> Some (a @ '' '' @ l))"

subsection \<open>Example inputs\<close>

text \<open>Concrete values for the instances below: externals with the namespace of the
  code's example and a parent function that cuts the last component off a path, a
  manager, and inventory records that differ in version, release and \<^verbatim>\<open>boots\<close>
  only.\<close>

definition example_externals :: cbm_externals where
  "example_externals =
     \<lparr>KERNEL_NAMESPACE = ''org.clearlinux'',
      KERNEL_MODULES_DIRECTORY = ''usr/lib/modules'',
      cbm_get_file_parent = (\<lambda>p. take (length p - length (basename p) - 1) p)\<rparr>"

definition example_manager :: BootManager where
  "example_manager =
     \<lparr>prefix = ''/mnt'',
      kernel_dir = Some ''/mnt/usr/lib/kernel'',
      sys_kernel = \<lparr>SystemKernel.version = [], ktype = [], release = 0\<rparr>,
      have_sys_kernel = False,
      image_mode = False\<rparr>"

definition example_kernel :: "string \<Rightarrow> int \<Rightarrow> bool \<Rightarrow> Kernel" where
  "example_kernel v r b =
     \<lparr>path = ''/mnt/usr/lib/kernel/org.clearlinux.native.'' @ v @ ''-'' @ printf_d r,
      bpath = ''org.clearlinux.native.'' @ v @ ''-'' @ printf_d r,
      version = v,
      release = r,
      ktype = ''native'',
      module_dir = ''/mnt/usr/lib/modules/'' @ v @ ''-'' @ printf_d r @ ''.native'',
      cmdline = Some ''quiet'',
      cmdline_file = ''/mnt/usr/lib/kernel/cmdline-'' @ v @ ''-'' @ printf_d r @ ''.native'',
      kconfig_file = None,
      kboot_file = Some (''/mnt/var/lib/kernel/k_booted_'' @ v @ ''-'' @ printf_d r @ ''.native''),
      boots = b\<rparr>"

text \<open>The kernel \<^verbatim>\<open>org.clearlinux.lts.4.4.0-120\<close> under the example manager: the path
  of its blob, of its cmdline fragment and of its module directory in the current and
  in the legacy layout, and the record built for it, up to the module directory and the
  cmdline.\<close>

definition example_path :: string where
  "example_path = ''/mnt/usr/lib/kernel/org.clearlinux.lts.4.4.0-120''"

definition example_cmdline_file :: string where
  "example_cmdline_file = ''/mnt/usr/lib/kernel/cmdline-4.4.0-120.lts''"

definition example_module_dir :: string where
  "example_module_dir = ''/mnt/usr/lib/modules/4.4.0-120.lts''"

definition example_legacy_dir :: string where
  "example_legacy_dir = ''/mnt/usr/lib/modules/4.4.0-120''"

definition example_record :: "string \<Rightarrow> string option \<Rightarrow> Kernel" where
  "example_record mdir cmdl =
     \<lparr>path = example_path,
      bpath = ''org.clearlinux.lts.4.4.0-120'',
      version = ''4.4.0'',
      release = 120,
      ktype = ''lts'',
      module_dir = mdir,
      cmdline = cmdl,
      cmdline_file = example_cmdline_file,
      kconfig_file = None,
      kboot_file = Some ''/mnt/var/lib/kernel/k_booted_4.4.0-120.lts'',
      boots = False\<rparr>"

text \<open>A file system in which exactly the paths of \<open>present\<close> exist, and the cmdline
  fragment of the example kernel, when present, has the given content.\<close>

definition example_fs :: "string list \<Rightarrow> string \<Rightarrow> filesystem" where
  "example_fs present content =
     \<lparr>fs_exists = (\<lambda>p. p \<in> set present),
      fs_content = (\<lambda>p. if p = example_cmdline_file \<and> p \<in> set present
                         then Some content else None),
      fs_readlink = (\<lambda>p. None),
      fs_readdir = (\<lambda>p. None),
      fs_lstat = (\<lambda>p. None)\<rparr>"

section \<open>Properties\<close>

subsection \<open>The kernel filename parser\<close>

lemma scan_literal_iff: "scan_literal lit s = Some rest \<longleftrightarrow> s = lit @ rest"
proof
  assume "scan_literal lit s = Some rest"
  then have "take (length lit) s = lit" "rest = drop (length lit) s"
    by (auto simp: scan_literal_def split: if_splits)
  then show "s = lit @ rest"
    using append_take_drop_id [of "length lit" s] by simp
next
  assume "s = lit @ rest"
  then show "scan_literal lit s = Some rest"
    by (simp add: scan_literal_def)
qed

lemma takeWhile_run:
  assumes "\<forall>c\<in>set tok. P c" and "rest = [] \<or> \<not> P (hd rest)"
  shows "takeWhile P (tok @ rest) = tok"
proof (cases rest)
  case Nil
  then show ?thesis using assms(1) by (simp add: takeWhile_eq_all_conv)
next
  case (Cons x xs)
  then have "\<not> P x" using assms(2) by simp
  then show ?thesis using assms(1) Cons by (simp add: takeWhile_tail takeWhile_eq_all_conv)
qed

lemma scan_set_accepts:
  assumes "\<forall>c\<in>set tok. P c" and "rest = [] \<or> \<not> P (hd rest)" and "length tok \<le> w"
  shows "scan_set w P (tok @ rest) = (tok, rest)"
proof -
  have run: "takeWhile P (tok @ rest) = tok"
    using assms(1,2) by (rule takeWhile_run)
  show ?thesis
    unfolding scan_set_def Let_def run using assms(3) by simp
qed



lemma isdigit_not_sign: "isdigit c \<Longrightarrow> c \<noteq> CHR ''-'' \<and> c \<noteq> CHR ''+'' \<and> \<not> isspace c"
  by (auto simp: isdigit_def isspace_def)

lemma sign_not_space: "\<not> isspace (CHR ''-'')" "\<not> isspace (CHR ''+'')"
  by (simp_all add: isspace_def)

lemma scan_long_accepts:
  assumes ws: "\<forall>c\<in>set ws. isspace c"
    and sg: "sg = [] \<or> sg = ''+'' \<or> sg = ''-''"
    and ds: "ds \<noteq> []" "\<forall>c\<in>set ds. isdigit c"
    and junk: "junk = [] \<or> \<not> isdigit (hd junk)"
  shows "scan_long (ws @ sg @ ds @ junk) =
    Some (strtol_clamp (if sg = ''-'' then - dec_value ds else dec_value ds), junk)"
proof -
  obtain d ds' where d: "ds = d # ds'" using ds(1) by (cases ds) auto
  have dig: "isdigit d" using ds(2) d by simp
  have nsp: "\<not> isspace (hd (sg @ ds @ junk))"
    using sg d dig isdigit_not_sign sign_not_space by auto
  have s1: "dropWhile isspace (ws @ sg @ ds @ junk) = sg @ ds @ junk"
    using ws nsp d by (simp add: dropWhile_append2 dropWhile_eq_self_iff)
  have run: "takeWhile isdigit (ds @ junk) = ds"
    using ds(2) junk by (rule takeWhile_run)
  from sg show ?thesis
  proof (elim disjE)
    assume "sg = []"
    then show ?thesis
      unfolding scan_long_def s1 using d dig isdigit_not_sign [OF dig] run ds(1)
      by (simp add: Let_def)
  next
    assume "sg = ''+''"
    then show ?thesis
      unfolding scan_long_def s1 using run ds(1) by (simp add: Let_def)
  next
    assume "sg = ''-''"
    then show ?thesis
      unfolding scan_long_def s1 using run ds(1) by (simp add: Let_def)
  qed
qed



lemma sscanf_kernel_name_accepts:
  assumes t: "t \<noteq> []" "CHR ''.'' \<notin> set t" "length t \<le> 15"
    and v: "v \<noteq> []" "CHR ''-'' \<notin> set v" "length v \<le> 15"
    and num: "scan_long rest = Some (x, junk)"
  shows "sscanf_kernel_name ns (ns @ ''.'' @ t @ ''.'' @ v @ ''-'' @ rest) =
    Some (t, v, int_of_long x)"
proof -
  have l1: "scan_literal (ns @ ''.'') (ns @ ''.'' @ t @ ''.'' @ v @ ''-'' @ rest) =
      Some (t @ ''.'' @ v @ ''-'' @ rest)"
    by (simp add: scan_literal_iff)
  have ty: "scan_set 15 (\<lambda>c. c \<noteq> CHR ''.'') (t @ ''.'' @ v @ ''-'' @ rest) =
      (t, ''.'' @ v @ ''-'' @ rest)"
    using t by (intro scan_set_accepts) auto
  have l2: "scan_literal ''.'' (''.'' @ v @ ''-'' @ rest) = Some (v @ ''-'' @ rest)"
    by (simp add: scan_literal_iff)
  have ve: "scan_set 15 (\<lambda>c. c \<noteq> CHR ''-'') (v @ ''-'' @ rest) = (v, ''-'' @ rest)"
    using v by (intro scan_set_accepts) auto
  have l3: "scan_literal ''-'' (''-'' @ rest) = Some rest"
    by (simp add: scan_literal_iff)
  show ?thesis
    unfolding sscanf_kernel_name_def l1 using t v
    by (simp only: option.case ty l2 ve l3 num prod.case Let_def) simp
qed


lemma dec_value_snoc: "dec_value (ds @ [d]) = 10 * dec_value ds + digit_val d"
  by (simp add: dec_value_def)

lemma dec_value_nonneg: "\<forall>c\<in>set ds. isdigit c \<Longrightarrow> 0 \<le> dec_value ds"
proof (induction ds rule: rev_induct)
  case Nil
  then show ?case by (simp add: dec_value_def)
next
  case (snoc d ds)
  have "isdigit d" using snoc.prems by simp
  then have "0 \<le> digit_val d" by (auto simp: isdigit_def digit_val_def)
  then show ?case using snoc by (simp add: dec_value_snoc)
qed

lemma int_of_long_in_range:
  assumes "0 \<le> x" and "x \<le> 2147483647"
  shows "int_of_long (strtol_clamp x) = x"
proof -
  have "strtol_clamp x = x" using assms by (simp add: strtol_clamp_def)
  moreover have "signed_take_bit 31 x = x"
    using assms by (intro signed_take_bit_int_eq_self) simp_all
  ultimately show ?thesis by (simp add: int_of_long_def)
qed




text \<open>
  C5 (as the code has it). A name \<^verbatim>\<open><namespace>.<type>.<version>-<release>\<close> whose type
  has 1 to 14 characters and no dot, whose version has 1 to 14 characters and no dash,
  and whose release is a non-empty string of digits of a value up to \<^verbatim>\<open>INT_MAX\<close>,
  parses to that type, that version and the value of the digits.
\<close>

theorem kernel_name_round_trip:
  assumes "t \<noteq> []" and "CHR ''.'' \<notin> set t" and "length t < 15"
    and "v \<noteq> []" and "CHR ''-'' \<notin> set v" and "length v < 15"
    and "ds \<noteq> []" and "\<forall>c\<in>set ds. isdigit c" and "dec_value ds \<le> 2147483647"
  shows "sscanf_kernel_name ns (ns @ ''.'' @ t @ ''.'' @ v @ ''-'' @ ds) =
    Some (t, v, dec_value ds)"
proof -
  have "scan_long ([] @ [] @ ds @ []) = Some (strtol_clamp (dec_value ds), [])"
    using scan_long_accepts [of "[]" "[]" ds "[]"] assms(7,8) by simp
  then have num: "scan_long ds = Some (strtol_clamp (dec_value ds), [])"
    by simp
  have t15: "length t \<le> 15" and v15: "length v \<le> 15" using assms(3,6) by simp_all
  from sscanf_kernel_name_accepts [OF assms(1,2) t15 assms(4,5) v15 num]
  have "sscanf_kernel_name ns (ns @ ''.'' @ t @ ''.'' @ v @ ''-'' @ ds) =
      Some (t, v, int_of_long (strtol_clamp (dec_value ds)))" .
  moreover have "int_of_long (strtol_clamp (dec_value ds)) = dec_value ds"
    using dec_value_nonneg [OF assms(8)] assms(9) by (rule int_of_long_in_range)
  ultimately show ?thesis by simp
qed

theorem kernel_name_round_trip_witness:
  "sscanf_kernel_name ''org.clearlinux''
     (''org.clearlinux'' @ ''.'' @ ''native'' @ ''.'' @ ''4.14.15'' @ ''-'' @ ''512'') =
     Some (''native'', ''4.14.15'', 512)"
proof -
  have "dec_value ''512'' = 512"
    by (simp add: dec_value_def digit_val_def)
  then show ?thesis
    using kernel_name_round_trip [of "''native''" "''4.14.15''" "''512''" "''org.clearlinux''"]
    by (simp add: isdigit_def)
qed

text \<open>
  C5 as stated fails on a release of digits whose value does not fit an \<^verbatim>\<open>int\<close>: the
  digits of 4294967296 parse to release 0.
\<close>

theorem kernel_name_release_overflow:
  "sscanf_kernel_name ''org.clearlinux'' ''org.clearlinux.native.4.2.1-4294967296'' =
     Some (''native'', ''4.2.1'', 0) \<and>
   dec_value ''4294967296'' = 4294967296"
  by code_simp

subsection \<open>The kernel record builder\<close>

lemma getline_lines_of: "getline s = Some (l, rest) \<Longrightarrow> lines_of s = l # lines_of rest"
proof (induction s arbitrary: l)
  case Nil
  then show ?case by (simp add: getline_def)
next
  case (Cons c cs)
  show ?case
  proof (cases "c = CHR 0x0A")
    case True
    then show ?thesis using Cons.prems by (simp add: getline_def)
  next
    case nl: False
    show ?thesis
    proof (cases cs)
      case Nil
      then show ?thesis using Cons.prems nl by (auto simp: getline_def)
    next
      case (Cons d ds)
      then obtain l' where l': "getline cs = Some (l', rest)" "l = c # l'"
        using Cons.prems nl by (auto simp: getline_def Let_def split: if_splits)
      then show ?thesis using Cons.IH [OF l'(1)] nl by simp
    qed
  qed
qed

lemma getline_None: "getline s = None \<longleftrightarrow> s = []"
  by (simp add: getline_def Let_def)

lemma getline_nonempty: "getline s = Some (l, rest) \<Longrightarrow> l \<noteq> []"
  by (auto simp: getline_def Let_def split: if_splits)

lemma c_str_strip: "buf \<noteq> [] \<Longrightarrow>
  c_str (if 1 < length buf \<and> buf ! (length buf - 1) = CHR 0x0A then buf[length buf - 1 := CHR 0x00] else buf) =
  cmdline_line buf"
proof -
  assume ne: "buf \<noteq> []"
  then have buf: "buf = butlast buf @ [last buf]" by simp
  have upd: "buf[length buf - 1 := CHR 0x00] = butlast buf @ [CHR 0x00]"
    by (subst buf) (simp add: list_update_append del: append_butlast_last_id)
  have "c_str (butlast buf @ [CHR 0x00]) = c_str (butlast buf)"
    by (simp add: c_str_def takeWhile_tail)
  then show ?thesis
    using ne upd by (simp add: cmdline_line_def last_conv_nth)
qed

lemma read_cmdline_foldl:
  "read_cmdline stream cmdl = foldl add_line cmdl (map cmdline_line (lines_of stream))"
proof (induction stream cmdl rule: read_cmdline.induct)
  case (1 stream cmdl)
  show ?case
  proof (cases "getline stream")
    case None
    then have "stream = []" by (simp add: getline_None)
    then show ?thesis
      by (subst read_cmdline.simps) (simp add: getline_def)
  next
    case (Some a)
    obtain buf rest where a: "a = (buf, rest)" by (cases a)
    have lines: "lines_of stream = buf # lines_of rest"
      using Some a by (simp add: getline_lines_of)
    have ne: "buf \<noteq> []" using Some a by (simp add: getline_nonempty)
    have acc: "(case cmdl of None \<Rightarrow> Some (cmdline_line buf)
        | Some acc \<Rightarrow> Some (acc @ '' '' @ cmdline_line buf)) = add_line cmdl (cmdline_line buf)"
      by (simp add: add_line_def)
    have step: "read_cmdline stream cmdl = read_cmdline rest (add_line cmdl (cmdline_line buf))"
      by (subst read_cmdline.simps)
        (simp only: Some a option.case prod.case Let_def c_str_strip [OF ne] acc)
    have "read_cmdline rest (add_line cmdl (cmdline_line buf)) =
        foldl add_line (add_line cmdl (cmdline_line buf)) (map cmdline_line (lines_of rest))"
      using 1 [OF Some a [symmetric] refl refl]
      by (simp only: c_str_strip [OF ne] acc)
    then show ?thesis
      using step lines by simp
  qed
qed

lemma join_space_Cons: "join_space ((a @ CHR '' '' # l) # ls) = a @ CHR '' '' # join_space (l # ls)"
  by (cases ls) simp_all

lemma foldl_add_line: "foldl add_line (Some a) ls = Some (join_space (a # ls))"
  by (induction ls arbitrary: a) (simp_all add: add_line_def join_space_Cons)

lemma read_cmdline_empty: "read_cmdline [] None = None"
  by (simp add: read_cmdline_foldl)

lemma read_cmdline_join:
  "content \<noteq> [] \<Longrightarrow> read_cmdline content None = Some (join_space (map cmdline_line (lines_of content)))"
proof -
  assume "content \<noteq> []"
  then obtain l rest where "getline content = Some (l, rest)"
    by (cases "getline content") (auto simp: getline_None)
  then have "lines_of content = l # lines_of rest" by (rule getline_lines_of)
  then show ?thesis
    by (simp add: read_cmdline_foldl add_line_def foldl_add_line)
qed

lemma inspect_kernel_matched:
  assumes "sscanf_kernel_name (KERNEL_NAMESPACE ext) (basename p) = Some (t, v, r)"
  shows "fst (boot_manager_inspect_kernel ext fs (Some s) (Some p) tr) =
    (let cmdline_path = spec_cmdline_path (cbm_get_file_parent ext p) v r t;
         current = spec_module_dir (prefix s) (KERNEL_MODULES_DIRECTORY ext) v r t;
         legacy = spec_legacy_module_dir (prefix s) (KERNEL_MODULES_DIRECTORY ext) v r;
         kconfig = cbm_get_file_parent ext p @ ''/config-'' @ v @ ''-'' @ printf_d r @ ''.'' @ t;
         kboot = prefix s @ ''/var/lib/kernel/k_booted_'' @ v @ ''-'' @ printf_d r @ ''.'' @ t
     in if \<not> fs_exists fs cmdline_path then None
        else if \<not> fs_exists fs current \<and> \<not> fs_exists fs legacy then None
        else (case fs_content fs cmdline_path of
                None \<Rightarrow> None
              | Some stream \<Rightarrow>
                  Some \<lparr>path = p, bpath = basename p, version = v, release = r, ktype = t,
                     module_dir = (if fs_exists fs current then current else legacy),
                     cmdline = read_cmdline stream None,
                     cmdline_file = cmdline_path,
                     kconfig_file = (if fs_exists fs kconfig then Some kconfig else None),
                     kboot_file = Some kboot,
                     boots = fs_exists fs kboot\<rparr>))"
  unfolding boot_manager_inspect_kernel_def
  by (simp add: assms Let_def split_def nc_file_exists_def fopen_def boot_manager_get_kboot_file_def
      spec_cmdline_path_def spec_module_dir_def spec_legacy_module_dir_def split: option.splits)

lemma inspect_kernel_built:
  assumes "fst (boot_manager_inspect_kernel ext fs self path_arg tr) = Some k"
  shows "\<exists>s p t v r. self = Some s \<and> path_arg = Some p \<and>
    sscanf_kernel_name (KERNEL_NAMESPACE ext) (basename p) = Some (t, v, r)"
proof -
  from assms obtain s p where sp: "self = Some s" "path_arg = Some p"
    by (cases self; cases path_arg) (auto simp: boot_manager_inspect_kernel_def)
  show ?thesis
  proof (cases "sscanf_kernel_name (KERNEL_NAMESPACE ext) (basename p)")
    case None
    then show ?thesis using assms sp by (simp add: boot_manager_inspect_kernel_def)
  next
    case (Some m)
    then show ?thesis using sp by (cases m) auto
  qed
qed

text \<open>
  C4 fails on the code: with a cmdline fragment that exists and is empty the loop body
  never runs, and the record is returned with \<^verbatim>\<open>cmdline\<close> still \<^verbatim>\<open>NULL\<close>.
\<close>

theorem empty_cmdline_file_null:
  "fst (boot_manager_inspect_kernel example_externals
          (example_fs [example_cmdline_file, example_module_dir] [])
          (Some example_manager) (Some example_path) []) =
     Some (example_record example_module_dir None)"
  by code_simp

text \<open>
  What the loop computes: nothing for an empty file, and else the lines joined with
  single spaces, each without its trailing newline unless it is the newline alone.
\<close>

lemma inspect_kernel_cmdline:
  assumes built: "fst (boot_manager_inspect_kernel ext fs self path_arg tr) = Some k"
    and content: "fs_content fs (cmdline_file k) = Some content"
  shows "cmdline k =
    (if content = [] then None else Some (join_space (map cmdline_line (lines_of content))))"
proof -
  from inspect_kernel_built [OF built] obtain s p t v r where sp: "self = Some s" "path_arg = Some p"
    and m: "sscanf_kernel_name (KERNEL_NAMESPACE ext) (basename p) = Some (t, v, r)"
    by blast
  let ?c = "spec_cmdline_path (cbm_get_file_parent ext p) v r t"
  from built have "cmdline_file k = ?c \<and> cmdline k = read_cmdline (the (fs_content fs ?c)) None"
    unfolding sp inspect_kernel_matched [OF m]
    by (auto simp: Let_def split: if_splits option.splits)
  then have "cmdline k = read_cmdline content None"
    using content by simp
  then show ?thesis by (simp add: read_cmdline_join read_cmdline_empty)
qed

text \<open>
  C6 fails on the code: on a file with a blank line, the line that is the newline alone
  is not stripped (the test \<^verbatim>\<open>r > 1\<close> excludes it), so the cmdline of the three lines
  \<^verbatim>\<open>a\<close>, empty, \<^verbatim>\<open>b\<close> holds a newline between two spaces, where the file's lines,
  each without its trailing newline and joined with single spaces, give \<^verbatim>\<open>a\<close>, two
  spaces, \<^verbatim>\<open>b\<close>.
\<close>

theorem cmdline_blank_line_kept:
  "fst (boot_manager_inspect_kernel example_externals
          (example_fs [example_cmdline_file, example_module_dir]
             [CHR ''a'', CHR 0x0A, CHR 0x0A, CHR ''b'', CHR 0x0A])
          (Some example_manager) (Some example_path) []) =
     Some (example_record example_module_dir
        (Some [CHR ''a'', CHR '' '', CHR 0x0A, CHR '' '', CHR ''b''])) \<and>
   spec_cmdline [CHR ''a'', CHR 0x0A, CHR 0x0A, CHR ''b'', CHR 0x0A] = ''a  b''"
  by code_simp

text \<open>
  C7. For an entry that matched the filename pattern: when the module directory of the
  current layout exists, the record is built with it as \<^verbatim>\<open>module_dir\<close>; when only
  the legacy directory exists, the record is still built, with the legacy path as
  \<^verbatim>\<open>module_dir\<close>; when neither exists the result is \<^verbatim>\<open>NULL\<close>, an ordinary return
  value. A record is built where the cmdline fragment, which the builder checks before
  the module directory and reads after it, exists and opens.
\<close>

theorem module_dir_resolution:
  assumes "sscanf_kernel_name (KERNEL_NAMESPACE ext) (basename p) = Some (t, v, r)"
  shows "(fs_exists fs (spec_cmdline_path (cbm_get_file_parent ext p) v r t) \<and>
     fs_content fs (spec_cmdline_path (cbm_get_file_parent ext p) v r t) \<noteq> None \<and>
     fs_exists fs (spec_module_dir (prefix s) (KERNEL_MODULES_DIRECTORY ext) v r t) \<longrightarrow>
      (\<exists>k. fst (boot_manager_inspect_kernel ext fs (Some s) (Some p) tr) = Some k \<and>
         module_dir k = spec_module_dir (prefix s) (KERNEL_MODULES_DIRECTORY ext) v r t)) \<and>
    (fs_exists fs (spec_cmdline_path (cbm_get_file_parent ext p) v r t) \<and>
     fs_content fs (spec_cmdline_path (cbm_get_file_parent ext p) v r t) \<noteq> None \<and>
     \<not> fs_exists fs (spec_module_dir (prefix s) (KERNEL_MODULES_DIRECTORY ext) v r t) \<and>
     fs_exists fs (spec_legacy_module_dir (prefix s) (KERNEL_MODULES_DIRECTORY ext) v r) \<longrightarrow>
      (\<exists>k. fst (boot_manager_inspect_kernel ext fs (Some s) (Some p) tr) = Some k \<and>
         module_dir k = spec_legacy_module_dir (prefix s) (KERNEL_MODULES_DIRECTORY ext) v r)) \<and>
    (\<not> fs_exists fs (spec_module_dir (prefix s) (KERNEL_MODULES_DIRECTORY ext) v r t) \<and>
     \<not> fs_exists fs (spec_legacy_module_dir (prefix s) (KERNEL_MODULES_DIRECTORY ext) v r) \<longrightarrow>
      fst (boot_manager_inspect_kernel ext fs (Some s) (Some p) tr) = None)"
  unfolding inspect_kernel_matched [OF assms]
  by (auto simp: Let_def)

text \<open>The three cases on the kernel \<^verbatim>\<open>org.clearlinux.lts.4.4.0-120\<close>: only the legacy
  directory, the directory of the current layout, and neither.\<close>

theorem module_dir_resolution_witness:
  "(\<exists>k. fst (boot_manager_inspect_kernel example_externals
          (example_fs [example_cmdline_file, example_legacy_dir] ''quiet'')
          (Some example_manager) (Some example_path) []) = Some k \<and>
      module_dir k = example_legacy_dir) \<and>
   (\<exists>k. fst (boot_manager_inspect_kernel example_externals
          (example_fs [example_cmdline_file, example_module_dir] ''quiet'')
          (Some example_manager) (Some example_path) []) = Some k \<and>
      module_dir k = example_module_dir) \<and>
   fst (boot_manager_inspect_kernel example_externals
          (example_fs [example_cmdline_file] ''quiet'')
          (Some example_manager) (Some example_path) []) = None"
proof -
  let ?p = "example_path"
  have m: "sscanf_kernel_name (KERNEL_NAMESPACE example_externals) (basename ?p) =
      Some (''lts'', ''4.4.0'', 120)"
    by code_simp
  have c: "spec_cmdline_path (cbm_get_file_parent example_externals ?p) ''4.4.0'' 120 ''lts'' =
      example_cmdline_file"
    by code_simp
  have cur: "spec_module_dir (prefix example_manager) (KERNEL_MODULES_DIRECTORY example_externals)
      ''4.4.0'' 120 ''lts'' = example_module_dir"
    by code_simp
  have leg: "spec_legacy_module_dir (prefix example_manager)
      (KERNEL_MODULES_DIRECTORY example_externals) ''4.4.0'' 120 = example_legacy_dir"
    by code_simp
  have ex: "fs_exists (example_fs present content) q \<longleftrightarrow> q \<in> set present" for present content q
    by (simp add: example_fs_def)
  have ct: "fs_content (example_fs present ''quiet'') example_cmdline_file \<noteq> None"
    if "example_cmdline_file \<in> set present" for present
    using that by (simp add: example_fs_def)
  show ?thesis
    using module_dir_resolution [OF m, of "example_fs [example_cmdline_file, example_legacy_dir] ''quiet''" example_manager "[]"]
      module_dir_resolution [OF m, of "example_fs [example_cmdline_file, example_module_dir] ''quiet''" example_manager "[]"]
      module_dir_resolution [OF m, of "example_fs [example_cmdline_file] ''quiet''" example_manager "[]"]
    unfolding c cur leg ex
    using ct
    by (simp add: example_cmdline_file_def example_module_dir_def example_legacy_dir_def)
qed

subsection \<open>The system kernel identity parser\<close>

lemma replicate_update_same: "(replicate m x)[i := x] = replicate m x"
proof (induction m arbitrary: i)
  case 0
  then show ?case by simp
next
  case (Suc m)
  then show ?case by (cases i) simp_all
qed

lemma c_str_zero_padded:
  assumes "CHR 0x00 \<notin> set xs" and "0 < m"
  shows "c_str (xs @ replicate m (CHR 0x00)) = xs"
proof -
  obtain m' where m: "m = Suc m'" using assms(2) by (cases m) auto
  have "takeWhile (\<lambda>c. c \<noteq> CHR 0x00) xs = xs"
    using assms(1) by (induction xs) auto
  moreover have "\<forall>x\<in>set xs. x \<noteq> CHR 0x00" using assms(1) by auto
  ultimately show ?thesis
    unfolding c_str_def m by (simp add: takeWhile_append2)
qed

lemma strncpy_zero_buf:
  assumes "len \<le> length src"
  shows "(strncpy (replicate (Suc n) z) src len)[Suc len := z] = take len src @ replicate (Suc n - len) z"
proof -
  have "strncpy (replicate (Suc n) z) src len = take len src @ replicate (Suc n - len) z"
    using assms by (simp add: strncpy_def del: replicate.simps)
  then show ?thesis
    using assms by (simp add: list_update_append replicate_update_same del: replicate.simps)
qed

lemma strchr_first: "ch \<notin> set xs \<Longrightarrow> strchr (xs @ ch # ys) ch = Some (length xs)"
proof -
  assume "ch \<notin> set xs"
  then have "takeWhile (\<lambda>c. c \<noteq> ch) xs = xs"
    by (induction xs) auto
  then show ?thesis
    by (simp add: strchr_def takeWhile_tail)
qed

lemma strchr_absent: "ch \<notin> set xs \<Longrightarrow> strchr xs ch = None"
  by (simp add: strchr_def)

text \<open>
  What the parser accepts: a non-empty version without a dash, a non-empty release
  without a dot that \<^verbatim>\<open>strtol\<close> converts to its end, and a non-empty type, each
  within the bound. The buffers then hold the tokens, followed by zero bytes.
\<close>

lemma parse_accepts:
  assumes v: "CHR ''-'' \<notin> set v" "v \<noteq> []" "length v < n"
    and r: "CHR ''.'' \<notin> set r" "r \<noteq> []" "length r + 1 < n" "CHR 0x00 \<notin> set r"
    and t: "t \<noteq> []" "length t < n"
    and num: "strtol r = (x, [])"
  shows "cbm_parse_system_kernel n (Some (v @ CHR ''-'' # r @ CHR ''.'' # t)) (Some k0) =
    (True, Some \<lparr>SystemKernel.version = v @ replicate (Suc n - length v) (CHR 0x00),
                 ktype = t @ replicate (Suc n - length t) (CHR 0x00),
                 release = int_of_long x\<rparr>)"
proof -
  let ?inp = "v @ CHR ''-'' # r @ CHR ''.'' # t"
  have c: "strchr ?inp (CHR ''-'') = Some (length v)"
    using v(1) by (rule strchr_first)
  have c2: "strchr (r @ CHR ''.'' # t) (CHR ''.'') = Some (length r)"
    using r(1) by (rule strchr_first)
  have kr: "c_str (r @ replicate (Suc n - length r) (CHR 0x00)) = r"
    using r by (simp add: c_str_zero_padded)
  show ?thesis
    unfolding cbm_parse_system_kernel_def
    using v r t
    by (cases k0) (simp add: Let_def c c2 kr strncpy_zero_buf memset_SystemKernel_def num del: replicate.simps)
qed


lemma parse_no_dash:
  "CHR ''-'' \<notin> set inp \<Longrightarrow> fst (cbm_parse_system_kernel n (Some inp) (Some k0)) = False"
  unfolding cbm_parse_system_kernel_def by (simp add: strchr_absent)

lemma parse_rejects_junk:
  assumes v: "CHR ''-'' \<notin> set v"
    and r: "CHR ''.'' \<notin> set r" "CHR 0x00 \<notin> set r"
    and junk: "snd (strtol r) \<noteq> []"
  shows "fst (cbm_parse_system_kernel n (Some (v @ CHR ''-'' # r @ CHR ''.'' # t)) (Some k0)) = False"
proof -
  let ?inp = "v @ CHR ''-'' # r @ CHR ''.'' # t"
  have c: "strchr ?inp (CHR ''-'') = Some (length v)"
    using v by (rule strchr_first)
  have c2: "strchr (r @ CHR ''.'' # t) (CHR ''.'') = Some (length r)"
    using r(1) by (rule strchr_first)
  have kr: "c_str (r @ replicate (Suc n - length r) (CHR 0x00)) = r" if "length r + 1 < n"
    using r that by (simp add: c_str_zero_padded)
  show ?thesis
    unfolding cbm_parse_system_kernel_def
    using junk
    by (simp add: Let_def c c2 kr strncpy_zero_buf split_def del: replicate.simps)
qed

lemma memset_SystemKernel_const: "memset_SystemKernel n k1 = memset_SystemKernel n k2"
  by (cases k1, cases k2) (simp add: memset_SystemKernel_def)

lemma parse_keeps_struct: "\<exists>k'. snd (cbm_parse_system_kernel n (Some inp) (Some k)) = Some k'"
  unfolding cbm_parse_system_kernel_def
  by (simp add: Let_def split_def split: option.splits)

lemma strtol_120: "strtol ''120'' = (120, [])"
  by (simp add: strtol_def scan_long_def isspace_def isdigit_def dec_value_def digit_val_def strtol_clamp_def Let_def)

lemma strtol_abc: "strtol ''abc'' = (0, ''abc'')"
  by (simp add: strtol_def scan_long_def isspace_def isdigit_def dec_value_def digit_val_def strtol_clamp_def Let_def)

text \<open>
  C8. Where \<^verbatim>\<open>CBM_KELEM_LEN\<close> exceeds 5 (the length of the version \<^verbatim>\<open>4.4.0\<close>), the
  parser returns true on \<^verbatim>\<open>4.4.0-120.lts\<close> and leaves version \<^verbatim>\<open>4.4.0\<close>, release 120
  and type \<^verbatim>\<open>lts\<close> in the structure. It returns false on \<^verbatim>\<open>4.4.0.lts\<close>, which has no
  dash, and on \<^verbatim>\<open>4.4.0-abc.lts\<close>, whose release is not a number.
\<close>

theorem parse_system_kernel_examples:
  "(5 < n \<longrightarrow>
      (\<exists>k. cbm_parse_system_kernel n (Some ''4.4.0-120.lts'') (Some k0) = (True, Some k) \<and>
           c_str (SystemKernel.version k) = ''4.4.0'' \<and> SystemKernel.release k = 120 \<and>
           c_str (SystemKernel.ktype k) = ''lts'')) \<and>
   fst (cbm_parse_system_kernel n (Some ''4.4.0.lts'') (Some k0)) = False \<and>
   fst (cbm_parse_system_kernel n (Some ''4.4.0-abc.lts'') (Some k0)) = False"
proof (intro conjI impI)
  assume n: "5 < n"
  have "cbm_parse_system_kernel n (Some (''4.4.0'' @ CHR ''-'' # ''120'' @ CHR ''.'' # ''lts'')) (Some k0) =
    (True, Some \<lparr>SystemKernel.version = ''4.4.0'' @ replicate (Suc n - length ''4.4.0'') (CHR 0x00),
                 ktype = ''lts'' @ replicate (Suc n - length ''lts'') (CHR 0x00),
                 release = int_of_long 120\<rparr>)"
    using n by (intro parse_accepts strtol_120) simp_all
  moreover have "c_str (''4.4.0'' @ replicate (Suc n - length ''4.4.0'') (CHR 0x00)) = ''4.4.0''"
    using n by (intro c_str_zero_padded) simp_all
  moreover have "c_str (''lts'' @ replicate (Suc n - length ''lts'') (CHR 0x00)) = ''lts''"
    using n by (intro c_str_zero_padded) simp_all
  ultimately show "\<exists>k. cbm_parse_system_kernel n (Some ''4.4.0-120.lts'') (Some k0) = (True, Some k) \<and>
           c_str (SystemKernel.version k) = ''4.4.0'' \<and> SystemKernel.release k = 120 \<and>
           c_str (SystemKernel.ktype k) = ''lts''"
    by (simp add: int_of_long_def)
next
  show "fst (cbm_parse_system_kernel n (Some ''4.4.0.lts'') (Some k0)) = False"
    by (rule parse_no_dash) simp
next
  have "fst (cbm_parse_system_kernel n (Some (''4.4.0'' @ CHR ''-'' # ''abc'' @ CHR ''.'' # ''lts'')) (Some k0)) = False"
    by (rule parse_rejects_junk) (simp_all add: strtol_abc)
  then show "fst (cbm_parse_system_kernel n (Some ''4.4.0-abc.lts'') (Some k0)) = False"
    by simp
qed

text \<open>The instance for a \<^verbatim>\<open>CBM_KELEM_LEN\<close> of 31, on a structure that holds
  the leftovers of an earlier call.\<close>

theorem parse_system_kernel_examples_witness:
  "(5::nat) < 31 \<and>
   (\<exists>k. cbm_parse_system_kernel 31 (Some ''4.4.0-120.lts'')
          (Some \<lparr>SystemKernel.version = ''junk'', ktype = ''old'', release = 7\<rparr>) = (True, Some k) \<and>
        c_str (SystemKernel.version k) = ''4.4.0'' \<and> SystemKernel.release k = 120 \<and>
        c_str (SystemKernel.ktype k) = ''lts'')"
  using parse_system_kernel_examples [of 31 "\<lparr>SystemKernel.version = ''junk'', ktype = ''old'', release = 7\<rparr>"]
  by simp

text \<open>
  C9. The parser is reentrant: for every input string, the return value and the final
  structure are the same whatever the structure held before the call; in particular
  after an earlier call, failed or not, on another input.
\<close>

theorem parse_system_kernel_reentrant:
  "cbm_parse_system_kernel n (Some inp) (Some k1) = cbm_parse_system_kernel n (Some inp) (Some k2) \<and>
   cbm_parse_system_kernel n (Some inp) (snd (cbm_parse_system_kernel n (Some inp') (Some k1))) =
     cbm_parse_system_kernel n (Some inp) (Some k1)"
proof
  show first: "cbm_parse_system_kernel n (Some inp) (Some k1) = cbm_parse_system_kernel n (Some inp) (Some k2)" for k2
    unfolding cbm_parse_system_kernel_def
    by (simp add: memset_SystemKernel_const [of n k1 k2])
  obtain k' where "snd (cbm_parse_system_kernel n (Some inp') (Some k1)) = Some k'"
    using parse_keeps_struct by blast
  then show "cbm_parse_system_kernel n (Some inp) (snd (cbm_parse_system_kernel n (Some inp') (Some k1))) =
     cbm_parse_system_kernel n (Some inp) (Some k1)"
    using first [of k'] by simp
qed

subsection \<open>The last-booted query\<close>

lemma last_booted_step_unbooted: "\<not> boots k \<Longrightarrow> last_booted_step st k = st"
  by (cases st) (simp add: last_booted_step_def)

lemma foldl_last_booted_skip:
  "\<forall>k\<in>set ks. boots k \<longrightarrow> release k < h \<Longrightarrow> foldl last_booted_step (h, c) ks = (h, c)"
  by (induction ks) (auto simp: last_booted_step_def)

lemma foldl_last_booted_filter:
  "foldl last_booted_step st (filter boots ks) = foldl last_booted_step st ks"
  by (induction ks arbitrary: st) (simp_all add: last_booted_step_unbooted)

text \<open>
  The loop invariant: either no candidate was found and every booted record seen has a
  release below -1, or the candidate is a booted record of the highest booted release
  seen, and no booted record after it reaches that release.
\<close>

lemma foldl_last_booted_inv:
  "foldl last_booted_step (- 1, None) ks = (h, c) \<Longrightarrow>
     (c = None \<and> h = - 1 \<and> (\<forall>k\<in>set ks. boots k \<longrightarrow> release k < - 1)) \<or>
     (\<exists>pre r post. ks = pre @ r # post \<and> c = Some r \<and> h = release r \<and> boots r \<and> - 1 \<le> h \<and>
        (\<forall>k\<in>set pre. boots k \<longrightarrow> release k \<le> h) \<and>
        (\<forall>k\<in>set post. boots k \<longrightarrow> release k < h))"
proof (induction ks arbitrary: h c rule: rev_induct)
  case Nil
  then show ?case by simp
next
  case (snoc x xs)
  obtain h0 c0 where st: "foldl last_booted_step (- 1, None) xs = (h0, c0)"
    by (cases "foldl last_booted_step (- 1, None) xs")
  have step: "last_booted_step (h0, c0) x = (h, c)"
    using snoc.prems st by simp
  note IH = snoc.IH [OF st]
  have lo: "- 1 \<le> h0"
    using IH by auto
  have below: "boots k \<Longrightarrow> release k \<le> h0" if "k \<in> set xs" for k
    using IH that lo by fastforce
  show ?case
  proof (cases "release x < h0 \<or> \<not> boots x")
    case True
    then have same: "h = h0" "c = c0"
      using step by (auto simp: last_booted_step_def split: if_splits)
    from IH show ?thesis
    proof
      assume "c0 = None \<and> h0 = - 1 \<and> (\<forall>k\<in>set xs. boots k \<longrightarrow> release k < - 1)"
      then show ?thesis using True same by auto
    next
      assume "\<exists>pre r post. xs = pre @ r # post \<and> c0 = Some r \<and> h0 = release r \<and> boots r \<and>
        - 1 \<le> h0 \<and> (\<forall>k\<in>set pre. boots k \<longrightarrow> release k \<le> h0) \<and>
        (\<forall>k\<in>set post. boots k \<longrightarrow> release k < h0)"
      then obtain pre r post where d: "xs = pre @ r # post" "c0 = Some r" "h0 = release r"
        "boots r" "- 1 \<le> h0" "\<forall>k\<in>set pre. boots k \<longrightarrow> release k \<le> h0"
        "\<forall>k\<in>set post. boots k \<longrightarrow> release k < h0"
        by blast
      have "xs @ [x] = pre @ r # (post @ [x])" using d(1) by simp
      moreover have "\<forall>k\<in>set (post @ [x]). boots k \<longrightarrow> release k < h0"
        using d(7) True by auto
      ultimately show ?thesis using d same by blast
    qed
  next
    case False
    then have new: "h = release x" "c = Some x" and bx: "boots x" and ge: "h0 \<le> release x"
      using step by (auto simp: last_booted_step_def split: if_splits)
    have "xs @ [x] = xs @ x # []" by simp
    moreover have "\<forall>k\<in>set xs. boots k \<longrightarrow> release k \<le> release x"
      using below ge by fastforce
    ultimately show ?thesis using new bx lo ge
      by (intro disjI2 exI [of _ xs] exI [of _ x] exI [of _ "[]"]) auto
  qed
qed

text \<open>
  The query on any inventory of C \<^verbatim>\<open>int\<close> releases: nothing is returned when no record
  boots; when some booted record has a release of at least -1, the initial
  \<^verbatim>\<open>high_rel\<close>, a booted record of the highest booted release is returned.
\<close>

lemma last_booted_general:
  "((\<forall>k\<in>set ks. \<not> boots k) \<longrightarrow> boot_manager_get_last_booted (Some s) (Some ks) = None) \<and>
   ((\<exists>k\<in>set ks. boots k \<and> - 1 \<le> release k) \<longrightarrow>
      (\<exists>r. boot_manager_get_last_booted (Some s) (Some ks) = Some r \<and> r \<in> set ks \<and> boots r \<and>
         (\<forall>k\<in>set ks. boots k \<longrightarrow> release k \<le> release r)))"
proof (intro conjI impI)
  assume "\<forall>k\<in>set ks. \<not> boots k"
  then show "boot_manager_get_last_booted (Some s) (Some ks) = None"
    using foldl_last_booted_skip [of ks "- 1" None]
    by (simp add: boot_manager_get_last_booted_def)
next
  assume some: "\<exists>k\<in>set ks. boots k \<and> - 1 \<le> release k"
  obtain h c where st: "foldl last_booted_step (- 1, None) ks = (h, c)"
    by (cases "foldl last_booted_step (- 1, None) ks")
  from foldl_last_booted_inv [OF st] some
  obtain pre r post where d: "ks = pre @ r # post" "c = Some r" "h = release r" "boots r"
    "\<forall>k\<in>set pre. boots k \<longrightarrow> release k \<le> h" "\<forall>k\<in>set post. boots k \<longrightarrow> release k < h"
    by fastforce
  have "\<forall>k\<in>set ks. boots k \<longrightarrow> release k \<le> release r"
    using d by auto
  then show "\<exists>r. boot_manager_get_last_booted (Some s) (Some ks) = Some r \<and> r \<in> set ks \<and>
      boots r \<and> (\<forall>k\<in>set ks. boots k \<longrightarrow> release k \<le> release r)"
    using st d by (auto simp: boot_manager_get_last_booted_def)
qed

text \<open>
  C1. For every inventory (the release of a record is a non-negative integer): when
  some record boots, the query returns a booted record of the inventory whose release
  is the highest among the booted records; when no record boots it returns nothing; and
  the records that do not boot never influence the result, whatever their releases:
  dropping them from the inventory leaves it unchanged.
\<close>

theorem last_booted_highest:
  assumes "\<forall>k\<in>set ks. 0 \<le> release k"
  shows "((\<exists>k\<in>set ks. boots k) \<longrightarrow>
      (\<exists>r. boot_manager_get_last_booted (Some s) (Some ks) = Some r \<and> r \<in> set ks \<and> boots r \<and>
         (\<forall>k\<in>set ks. boots k \<longrightarrow> release k \<le> release r))) \<and>
    ((\<forall>k\<in>set ks. \<not> boots k) \<longrightarrow> boot_manager_get_last_booted (Some s) (Some ks) = None) \<and>
    boot_manager_get_last_booted (Some s) (Some (filter boots ks)) =
      boot_manager_get_last_booted (Some s) (Some ks)"
proof (intro conjI impI)
  assume "\<exists>k\<in>set ks. boots k"
  then have "\<exists>k\<in>set ks. boots k \<and> - 1 \<le> release k"
    using assms by fastforce
  then show "\<exists>r. boot_manager_get_last_booted (Some s) (Some ks) = Some r \<and> r \<in> set ks \<and>
      boots r \<and> (\<forall>k\<in>set ks. boots k \<longrightarrow> release k \<le> release r)"
    using last_booted_general [of ks s] by blast
next
  assume "\<forall>k\<in>set ks. \<not> boots k"
  then show "boot_manager_get_last_booted (Some s) (Some ks) = None"
    using last_booted_general [of ks s] by blast
next
  show "boot_manager_get_last_booted (Some s) (Some (filter boots ks)) =
      boot_manager_get_last_booted (Some s) (Some ks)"
    by (simp add: boot_manager_get_last_booted_def foldl_last_booted_filter)
qed

text \<open>
  The spec's example: booted records of releases 5 and 7 and a record of release 9 that
  does not boot. The query returns a booted record of release 7.
\<close>

theorem last_booted_highest_witness:
  "0 \<le> release (example_kernel ''4.4.0'' 5 True) \<and>
   0 \<le> release (example_kernel ''4.4.1'' 7 True) \<and>
   0 \<le> release (example_kernel ''4.4.2'' 9 False) \<and>
   (\<exists>r. boot_manager_get_last_booted (Some example_manager)
          (Some [example_kernel ''4.4.0'' 5 True, example_kernel ''4.4.1'' 7 True,
             example_kernel ''4.4.2'' 9 False]) = Some r \<and>
        boots r \<and> release r = 7)"
proof -
  let ?ks = "[example_kernel ''4.4.0'' 5 True, example_kernel ''4.4.1'' 7 True,
    example_kernel ''4.4.2'' 9 False]"
  have dom: "\<forall>k\<in>set ?ks. 0 \<le> release k"
    by (simp add: example_kernel_def)
  have some: "\<exists>k\<in>set ?ks. boots k"
    by (simp add: example_kernel_def)
  with last_booted_highest [OF dom, of example_manager]
  obtain r where r: "boot_manager_get_last_booted (Some example_manager) (Some ?ks) = Some r"
    "r \<in> set ?ks" "boots r" "\<forall>k\<in>set ?ks. boots k \<longrightarrow> release k \<le> release r"
    by blast
  have "release r = 7"
    using r(2-4) by (auto simp: example_kernel_def)
  then show ?thesis using dom r(1,3) by auto
qed

text \<open>
  C2 (as the code has it). A booted record of the highest booted release, at least -1,
  that no later booted record equals in release is the one returned: among the booted
  records that share the highest release the query returns the last in scan order.
\<close>

theorem last_booted_tie_last:
  assumes "boots r" and "- 1 \<le> release r"
    and "\<forall>k\<in>set pre. boots k \<longrightarrow> release k \<le> release r"
    and "\<forall>k\<in>set post. boots k \<longrightarrow> release k < release r"
  shows "boot_manager_get_last_booted (Some s) (Some (pre @ r # post)) = Some r"
proof -
  obtain h c where st: "foldl last_booted_step (- 1, None) pre = (h, c)"
    by (cases "foldl last_booted_step (- 1, None) pre")
  have "h \<le> release r"
    using foldl_last_booted_inv [OF st] assms(2,3) by auto
  then have "last_booted_step (h, c) r = (release r, Some r)"
    using assms(1) by (simp add: last_booted_step_def)
  then have "foldl last_booted_step (- 1, None) (pre @ r # post) = (release r, Some r)"
    using st foldl_last_booted_skip [OF assms(4)] by simp
  then show ?thesis by (simp add: boot_manager_get_last_booted_def)
qed

theorem last_booted_tie_last_witness:
  "boot_manager_get_last_booted (Some example_manager)
     (Some ([example_kernel ''4.4.0'' 7 True] @ example_kernel ''4.4.1'' 7 True #
        [example_kernel ''4.4.2'' 5 True])) = Some (example_kernel ''4.4.1'' 7 True)"
  using last_booted_tie_last [of "example_kernel ''4.4.1'' 7 True"
      "[example_kernel ''4.4.0'' 7 True]" "[example_kernel ''4.4.2'' 5 True]" example_manager]
  by (simp add: example_kernel_def)

text \<open>
  C2 as stated fails: of two booted records of release 7 the query returns the second,
  which is not the first.
\<close>

theorem last_booted_tie_not_first:
  "boot_manager_get_last_booted (Some example_manager)
     (Some [example_kernel ''4.4.0'' 7 True, example_kernel ''4.4.1'' 7 True]) =
     Some (example_kernel ''4.4.1'' 7 True) \<and>
   example_kernel ''4.4.1'' 7 True \<noteq> example_kernel ''4.4.0'' 7 True"
  by (simp add: boot_manager_get_last_booted_def last_booted_step_def example_kernel_def)

subsection \<open>Null arguments\<close>

text \<open>
  C10. With a null manager, a null kernel directory, a null path or type string, a null
  inventory or a null output structure, the inspector, the scanner, the
  default-for-type query, the system kernel parser, the running-kernel query and the
  last-booted query return \<^verbatim>\<open>NULL\<close> or false; the list of file system accesses is the
  one they were given, and the output structure of the parser is as it was.
\<close>

theorem null_inputs_return_absent:
  "boot_manager_inspect_kernel ext fs None path_arg tr = (None, tr) \<and>
   boot_manager_inspect_kernel ext fs self None tr = (None, tr) \<and>
   boot_manager_get_kernels ext fs None tr = (None, tr) \<and>
   boot_manager_get_kernels ext fs (Some (s\<lparr>kernel_dir := None\<rparr>)) tr = (None, tr) \<and>
   boot_manager_get_default_for_type fs None kernels type tr = (None, tr) \<and>
   boot_manager_get_default_for_type fs self None type tr = (None, tr) \<and>
   boot_manager_get_default_for_type fs self kernels None tr = (None, tr) \<and>
   cbm_parse_system_kernel n None out = (False, out) \<and>
   cbm_parse_system_kernel n inp None = (False, None) \<and>
   boot_manager_get_running_kernel None kernels = None \<and>
   boot_manager_get_running_kernel self None = None \<and>
   boot_manager_get_last_booted None kernels = None \<and>
   boot_manager_get_last_booted self None = None"
  by (simp add: boot_manager_inspect_kernel_def boot_manager_get_kernels_def
      boot_manager_get_default_for_type_def cbm_parse_system_kernel_def
      boot_manager_get_running_kernel_def boot_manager_get_last_booted_def
      split: option.splits)

end
